theory Spec2Isabelle
  imports Complex_Main
begin

text \<open>
  A model of the bench-test program of \<open>current_code.py\<close>: the parsing of the
  multimeter's reply, the spike detector \<open>detect_beep\<close>, the acquisition controller
  \<open>run_test\<close> and the test sequencer \<open>run_beep_sequence\<close>.  \<open>Current_module.py\<close>
  holds the same three functions, line for line.  Setup, plotting and CSV export are not
  modelled.
\<close>

section \<open>Errors and Python values\<close>

text \<open>
  The exceptions the two modules can meet.  \<open>VisaIOError\<close> is the communication
  failure raised by the instrument library; \<open>AttributeError\<close> is what a method call
  on a handle that is \<open>None\<close> raises.
\<close>

datatype error = VisaIOError | ValueError | IndexError | AttributeError | ZeroDivisionError

text \<open>
  \<open>detect_beep\<close> returns a Python \<open>bool\<close> on two of its paths and falls off its end,
  which is the value \<open>None\<close>, on the third.
\<close>

datatype pyval = PyNone | PyBool bool

section \<open>Spike detector (\<open>detect_beep\<close>)\<close>

text \<open>
  Readings are Python floats.  The model keeps the exact decimal value of every reading
  as a rational number; the detector only compares readings with the threshold.
  \<open>np_greater\<close> is \<open>np.array(readings) > threshold\<close>; the array it returns is
  called \<open>above\<close> in the source and \<open>abv\<close> here.  The \<open>print\<close> calls of
  \<open>detect_beep\<close> are not modelled.
\<close>

definition np_greater :: "rat list \<Rightarrow> rat \<Rightarrow> bool list" where
  "np_greater readings threshold = map (\<lambda>r. threshold < r) readings"

text \<open>
  \<open>above[i]\<close> on a numpy array with a Python integer: an index in \<open>[-n, 0)\<close> counts from
  the end, anything outside \<open>[-n, n)\<close> raises \<open>IndexError\<close>.
\<close>

definition np_getitem :: "bool list \<Rightarrow> int \<Rightarrow> error + bool" where
  "np_getitem abv i =
     (if 0 \<le> i \<and> i < int (length abv) then Inr (abv ! nat i)
      else if i < 0 \<and> - int (length abv) \<le> i then Inr (abv ! nat (int (length abv) + i))
      else Inl IndexError)"

text \<open>
  One iteration of the \<open>while\<close> body, on the pair of the cursor \<open>i\<close> and the list
  \<open>spike_indices\<close> recorded so far.
\<close>

definition scan_step :: "bool list \<Rightarrow> int \<Rightarrow> int \<times> int list \<Rightarrow> error + (int \<times> int list)" where
  "scan_step abv min_gap st =
     (case np_getitem abv (fst st) of
        Inl e \<Rightarrow> Inl e
      | Inr hit \<Rightarrow>
          if hit then Inr (fst st + min_gap, snd st @ [fst st])
          else Inr (fst st + 1, snd st))"

text \<open>
  The loop \<open>while i < len(above)\<close>, started by \<open>find_spikes\<close> with \<open>i = 0\<close> and
  no spike recorded; its result is the list \<open>spike_indices\<close>.  Nothing bounds the number of iterations when
  \<open>min_gap\<close> is not positive, so the loop is a partial function: \<open>None\<close> is a scan that
  never leaves the loop.
\<close>

partial_function (option) scan_loop ::
  "bool list \<Rightarrow> int \<Rightarrow> int \<times> int list \<Rightarrow> (error + int list) option" where
  "scan_loop abv min_gap st =
     (if fst st < int (length abv) then
        (case scan_step abv min_gap st of
           Inl e \<Rightarrow> Some (Inl e)
         | Inr st' \<Rightarrow> scan_loop abv min_gap st')
      else Some (Inr (snd st)))"

declare scan_loop.simps [code]

definition find_spikes :: "rat list \<Rightarrow> rat \<Rightarrow> int \<Rightarrow> (error + int list) option" where
  "find_spikes readings threshold min_gap =
     scan_loop (np_greater readings threshold) min_gap (0, [])"

definition default_threshold :: rat where
  "default_threshold = 5 / 1000"

definition default_min_gap :: int where
  "default_min_gap = 10"

definition detect_beep :: "rat list \<Rightarrow> string \<Rightarrow> rat \<Rightarrow> int \<Rightarrow> (error + pyval) option" where
  "detect_beep readings label threshold min_gap =
     (case find_spikes readings threshold min_gap of
        None \<Rightarrow> None
      | Some (Inl e) \<Rightarrow> Some (Inl e)
      | Some (Inr spike_indices) \<Rightarrow>
          (let num_spikes = length spike_indices in
           if label = ''Double Beep'' then Some (Inr (PyBool (2 \<le> num_spikes)))
           else if label = ''Triple Beep'' then Some (Inr (PyBool (3 \<le> num_spikes)))
           else Some (Inr PyNone)))"

text \<open>The readings of the debounce example, up to the point where the spec writes an ellipsis.\<close>

definition example_readings :: "rat list" where
  "example_readings = [0, 0, 0.01, 0.01, 0, 0, 0, 0, 0, 0, 0.02, 0]"

section \<open>Sample stream parser\<close>

text \<open>
  The parsing code sits inside \<open>run_test\<close>, between the fetch and the \<open>return\<close>.
  A payload is a Python \<open>str\<close>; the instrument library decodes the bytes it reads as
  ASCII, so a character here is one code point below 256.  \<open>isspace\<close> and
  \<open>isdigit\<close> are Python's \<open>str.isspace\<close> and \<open>str.isdigit\<close> on these code
  points; \<open>isdigit\<close> also holds for the three superscript digits, which \<open>float\<close>
  rejects.  The \<open>print\<close> calls of the parser are not modelled.
\<close>

definition isspace :: "char \<Rightarrow> bool" where
  "isspace c = (c \<in> set [CHR 0x09, CHR 0x0A, CHR 0x0B, CHR 0x0C, CHR 0x0D,
       CHR 0x1C, CHR 0x1D, CHR 0x1E, CHR 0x1F, CHR '' '', CHR 0x85, CHR 0xA0])"

definition strip :: "string \<Rightarrow> string" where
  "strip s = rev (dropWhile isspace (rev (dropWhile isspace s)))"

text \<open>
  \<open>raw_data.split(',')\<close>: every comma ends a piece, so a payload with \<open>n\<close> commas
  has \<open>n + 1\<close> pieces and the result is never empty (the first branch of the
  \<^theory_text>\<open>case\<close> is there for totality only).
\<close>

fun split_comma :: "string \<Rightarrow> string list" where
  "split_comma [] = [[]]"
| "split_comma (c # cs) =
     (case split_comma cs of
        [] \<Rightarrow> [[c]]
      | tok # toks \<Rightarrow> if c = CHR '','' then [] # tok # toks else (c # tok) # toks)"

text \<open>
  The filter \<open>c.isdigit() or c in '.-Ee'\<close> keeps a character; everything else,
  including \<open>+\<close>, \<open>_\<close> and blanks, is removed from the piece.
\<close>

definition is_decimal :: "char \<Rightarrow> bool" where
  "is_decimal c = (c \<in> set ''0123456789'')"

definition isdigit :: "char \<Rightarrow> bool" where
  "isdigit c = (is_decimal c \<or> c \<in> set [CHR 0xB2, CHR 0xB3, CHR 0xB9])"

definition numeric_char :: "char \<Rightarrow> bool" where
  "numeric_char c = (isdigit c \<or> c \<in> set ''.-Ee'')"

text \<open>
  \<open>float(clean_value)\<close>.  The program applies \<open>float\<close> only to filtered text, so
  the model covers the grammar that text can match: an optional \<open>-\<close>, digits with
  an optional point (\<open>1\<close>, \<open>1.\<close>, \<open>.5\<close>, \<open>1.5\<close>), and an optional exponent
  \<open>e\<close> or \<open>E\<close> with an optional \<open>-\<close> and at least one digit.  Anything else is
  \<open>ValueError\<close>.  The result is the exact decimal value as a rational number; Python
  rounds that value to the nearest binary64 number (to infinity or zero when it is out of
  range), a step applied to each reading on its own and left out here.  Filtered text
  cannot spell \<open>nan\<close>, so the parser never produces one.
\<close>

definition digit_value :: "char \<Rightarrow> nat" where
  "digit_value c = of_char c - 48"

definition digits_value :: "string \<Rightarrow> nat" where
  "digits_value ds = foldl (\<lambda>acc c. 10 * acc + digit_value c) 0 ds"

definition parse_number :: "string \<Rightarrow> rat option" where
  "parse_number s =
     (let ip = takeWhile is_decimal s; r = dropWhile is_decimal s in
      if r = [] then (if ip = [] then None else Some (of_nat (digits_value ip)))
      else if hd r = CHR ''.'' \<and> list_all is_decimal (tl r) \<and> (ip \<noteq> [] \<or> tl r \<noteq> [])
        then Some (of_nat (digits_value ip) + of_nat (digits_value (tl r)) / 10 ^ length (tl r))
      else None)"

definition parse_digits :: "string \<Rightarrow> nat option" where
  "parse_digits s = (if s \<noteq> [] \<and> list_all is_decimal s then Some (digits_value s) else None)"

definition parse_exponent :: "string \<Rightarrow> int option" where
  "parse_exponent s =
     (if s \<noteq> [] \<and> hd s = CHR ''-'' then map_option (\<lambda>n. - int n) (parse_digits (tl s))
      else map_option int (parse_digits s))"

definition scale10 :: "rat \<Rightarrow> int \<Rightarrow> rat" where
  "scale10 m e = (if 0 \<le> e then m * 10 ^ nat e else m / 10 ^ nat (- e))"

definition exp_mark :: "char \<Rightarrow> bool" where
  "exp_mark c = (c = CHR ''e'' \<or> c = CHR ''E'')"

definition parse_unsigned :: "string \<Rightarrow> rat option" where
  "parse_unsigned s =
     (let mant = takeWhile (\<lambda>c. \<not> exp_mark c) s; rest = dropWhile (\<lambda>c. \<not> exp_mark c) s in
      case parse_number mant of
        None \<Rightarrow> None
      | Some m \<Rightarrow>
          if rest = [] then Some m
          else map_option (scale10 m) (parse_exponent (tl rest)))"

definition py_float :: "string \<Rightarrow> error + rat" where
  "py_float s =
     (case (if s \<noteq> [] \<and> hd s = CHR ''-'' then map_option uminus (parse_unsigned (tl s))
            else parse_unsigned s) of
        None \<Rightarrow> Inl ValueError
      | Some x \<Rightarrow> Inr x)"

text \<open>
  The \<open>for\<close> loop over the pieces: the body is a \<open>try\<close> whose handler catches
  \<open>ValueError\<close> only and continues with the next piece.
\<close>

fun split_loop :: "string list \<Rightarrow> rat list \<Rightarrow> error + rat list" where
  "split_loop [] readings = Inr readings"
| "split_loop (value # rest) readings =
     (let clean_value = filter numeric_char value in
      if clean_value \<noteq> [] then
        (case py_float clean_value of
           Inr x \<Rightarrow> split_loop rest (readings @ [x])
         | Inl e \<Rightarrow> if e = ValueError then split_loop rest readings else Inl e)
      else split_loop rest readings)"

text \<open>
  From \<open>raw_data.strip()\<close> to the \<open>readings\<close> list: the loop when the payload
  contains a comma, the single-value branch otherwise.
\<close>

definition parse_payload :: "string \<Rightarrow> error + rat list" where
  "parse_payload fetched =
     (let raw_data = strip fetched in
      if CHR '','' \<in> set raw_data then split_loop (split_comma raw_data) []
      else
        (let clean_value = filter numeric_char raw_data in
         case (if clean_value \<noteq> [] then map_sum id (\<lambda>x. [x]) (py_float clean_value) else Inr []) of
           Inr readings \<Rightarrow> Inr readings
         | Inl e \<Rightarrow> if e = ValueError then Inr [] else Inl e))"

section \<open>Float literals\<close>














section \<open>Instruments\<close>

text \<open>
  An instrument handle is either \<open>None\<close> or a connected device.  The program talks to
  a device through \<open>write\<close>, \<open>query\<close> and the \<open>timeout\<close> attribute; each of
  these can raise.  A command is kept as a constructor with its numeric argument instead
  of the formatted SCPI text (\<open>VOLT v\<close> stands for \<open>f":VOLT {voltage:.2f}"\<close>).
  A device is any function from the commands sent so far and the next command to a
  reply, together with the list of commands it has been sent; a theorem about every
  \<open>respond\<close> is a theorem about every behaviour of the hardware.  A command that makes
  the device raise still counts as sent.  Voltages and \<open>nplc\<close> are rational numbers,
  so the arithmetic of the timeout and of the wait is exact.
\<close>

datatype command =
    INST_CH1 | VOLT rat | OUTP_ON
  | SET_TIMEOUT int | CLS | CONF_CURR_DC | CURR_DC_NPLC rat | SAMP_COUN int
  | TRIG_SOUR_IMM | INIT | FETC

datatype reply = Ok string | Raise error

record instrument =
  respond :: "command list \<Rightarrow> command \<Rightarrow> reply"
  sent :: "command list"

text \<open>
  One operation on a handle.  On \<open>None\<close> the attribute access raises
  \<open>AttributeError\<close>.
\<close>

definition send :: "instrument option \<Rightarrow> command \<Rightarrow> (error + string) \<times> instrument option" where
  "send handle c =
     (case handle of
        None \<Rightarrow> (Inl AttributeError, None)
      | Some dev \<Rightarrow>
          (case respond dev (sent dev) c of Raise e \<Rightarrow> Inl e | Ok text \<Rightarrow> Inr text,
           Some (dev\<lparr>sent := sent dev @ [c]\<rparr>)))"

text \<open>
  Consecutive statements on one handle: the first one that raises ends the sequence.
\<close>

fun write_all :: "instrument option \<Rightarrow> command list \<Rightarrow> error option \<times> instrument option" where
  "write_all handle [] = (None, handle)"
| "write_all handle (c # cs) =
     (case send handle c of
        (Inl e, handle') \<Rightarrow> (Some e, handle')
      | (Inr text, handle') \<Rightarrow> write_all handle' cs)"

text \<open>
  \<open>int(x)\<close> truncates towards zero; \<open>time.sleep\<close> raises \<open>ValueError\<close> on a
  negative duration.
\<close>

definition py_int :: "rat \<Rightarrow> int" where
  "py_int x = (if x < 0 then \<lceil>x\<rceil> else \<lfloor>x\<rfloor>)"

definition sleep :: "rat \<Rightarrow> error option" where
  "sleep secs = (if secs < 0 then Some ValueError else None)"

section \<open>Acquisition controller (\<open>run_test\<close>)\<close>

text \<open>
  The dictionary \<open>run_test\<close> returns, with its keys \<open>"label"\<close>, \<open>"voltage"\<close> and
  \<open>"readings"\<close>.
\<close>

record acquisition =
  acq_label :: string
  acq_voltage :: rat
  acq_readings :: "rat list"

text \<open>
  The body of the \<open>try\<close> block: the timeout and the six configuration commands, the
  wait, the fetch and the parsing.
\<close>

definition dmm_setup :: "rat \<Rightarrow> int \<Rightarrow> command list" where
  "dmm_setup nplc sample_count =
     [SET_TIMEOUT (py_int (of_int sample_count * nplc * 1000 * 2)),
      CLS, CONF_CURR_DC, CURR_DC_NPLC nplc, SAMP_COUN sample_count, TRIG_SOUR_IMM, INIT]"

definition measure_current ::
  "instrument option \<Rightarrow> rat \<Rightarrow> int \<Rightarrow> (error + rat list) \<times> instrument option" where
  "measure_current dmm nplc sample_count =
     (case write_all dmm (dmm_setup nplc sample_count) of
        (Some e, dmm1) \<Rightarrow> (Inl e, dmm1)
      | (None, dmm1) \<Rightarrow>
          (case sleep (of_int sample_count * 0.01) of
             Some e \<Rightarrow> (Inl e, dmm1)
           | None \<Rightarrow>
               (case send dmm1 FETC of
                  (Inl e, dmm2) \<Rightarrow> (Inl e, dmm2)
                | (Inr raw_data, dmm2) \<Rightarrow> (parse_payload raw_data, dmm2))))"

text \<open>
  \<open>run_test\<close>: the three power-supply commands come before the \<open>try\<close>, so an
  exception they raise leaves the function; \<open>except Exception\<close> turns every exception
  of the \<open>try\<close> body into a result with no readings.  The result is paired with the
  two handles as the call leaves them.
\<close>

definition run_test ::
  "instrument option \<Rightarrow> instrument option \<Rightarrow> rat \<Rightarrow> string \<Rightarrow> rat \<Rightarrow> int
     \<Rightarrow> (error + acquisition) \<times> instrument option \<times> instrument option" where
  "run_test psu dmm voltage label nplc sample_count =
     (case write_all psu [INST_CH1, VOLT voltage, OUTP_ON] of
        (Some e, psu1) \<Rightarrow> (Inl e, psu1, dmm)
      | (None, psu1) \<Rightarrow>
          (case measure_current dmm nplc sample_count of
             (Inr readings, dmm1) \<Rightarrow> (Inr \<lparr>acq_label = label, acq_voltage = voltage, acq_readings = readings\<rparr>,
                psu1, dmm1)
           | (Inl e, dmm1) \<Rightarrow> (Inr \<lparr>acq_label = label, acq_voltage = voltage, acq_readings = []\<rparr>,
                psu1, dmm1)))"

section \<open>Test sequencer (\<open>run_beep_sequence\<close>)\<close>

text \<open>
  \<open>max\<close> and \<open>min\<close> raise \<open>ValueError\<close> on an empty list, and
  \<open>sum(r)/len(r)\<close> raises \<open>ZeroDivisionError\<close>.
\<close>

definition py_max :: "rat list \<Rightarrow> error + rat" where
  "py_max r = (if r = [] then Inl ValueError else Inr (foldl max (hd r) (tl r)))"

definition py_min :: "rat list \<Rightarrow> error + rat" where
  "py_min r = (if r = [] then Inl ValueError else Inr (foldl min (hd r) (tl r)))"

definition py_mean :: "rat list \<Rightarrow> error + rat" where
  "py_mean r = (if length r = 0 then Inl ZeroDivisionError else Inr (sum_list r / of_nat (length r)))"

text \<open>
  \<open>run_beep_sequence\<close> returns \<open>None\<close> on every path; what tells the paths apart is
  what it printed and plotted.  \<open>PsuNotConnected\<close> is the message
  "Cannot run test - Power Supply not connected.", \<open>NoReadings\<close> is
  "No current readings collected. Skipping analysis.", and \<open>Plotted\<close> carries the
  minimum, maximum and average in mA printed for the main run, the two detection results
  and the list handed to \<open>plot_results\<close>.
\<close>

datatype report =
    PsuNotConnected
  | NoReadings
  | Plotted rat rat rat pyval pyval "acquisition list"

definition main_stats :: "rat list \<Rightarrow> error + rat \<times> rat \<times> rat" where
  "main_stats r =
     (case py_min r of
        Inl e \<Rightarrow> Inl e
      | Inr lo \<Rightarrow>
          (case py_max r of
             Inl e \<Rightarrow> Inl e
           | Inr hi \<Rightarrow>
               (case py_mean r of
                  Inl e \<Rightarrow> Inl e
                | Inr avg \<Rightarrow> Inr (lo * 1000, hi * 1000, avg * 1000))))"

text \<open>
  The second half of \<open>run_beep_sequence\<close>: the double-beep run and its detection, the
  triple-beep run with \<open>nplc=1, sample_count=600\<close> and its detection, and the plot.
  A detection that never returns makes the whole sequence never return.
\<close>

definition beep_checks ::
  "instrument option \<Rightarrow> instrument option \<Rightarrow> rat \<Rightarrow> rat \<Rightarrow> acquisition \<Rightarrow> rat \<times> rat \<times> rat
     \<Rightarrow> ((error + report) \<times> instrument option \<times> instrument option) option" where
  "beep_checks psu dmm v_double v_triple result_main stats =
     (case run_test psu dmm v_double ''Double Beep'' 0.1 100 of
        (Inl e, psu1, dmm1) \<Rightarrow> Some (Inl e, psu1, dmm1)
      | (Inr result_double, psu1, dmm1) \<Rightarrow>
          (case detect_beep (acq_readings result_double) ''Double Beep''
                  default_threshold default_min_gap of
             None \<Rightarrow> None
           | Some (Inl e) \<Rightarrow> Some (Inl e, psu1, dmm1)
           | Some (Inr double_detected) \<Rightarrow>
               (case run_test psu1 dmm1 v_triple ''Triple Beep'' 1 600 of
                  (Inl e, psu2, dmm2) \<Rightarrow> Some (Inl e, psu2, dmm2)
                | (Inr result_triple, psu2, dmm2) \<Rightarrow>
                    (case detect_beep (acq_readings result_triple) ''Triple Beep'' 0.005 10 of
                       None \<Rightarrow> None
                     | Some (Inl e) \<Rightarrow> Some (Inl e, psu2, dmm2)
                     | Some (Inr triple_detected) \<Rightarrow>
                         Some (Inr (Plotted (fst stats) (fst (snd stats)) (snd (snd stats))
                                     double_detected triple_detected
                                     [result_main, result_double, result_triple]),
                               psu2, dmm2)))))"

text \<open>
  The first half: the check of the power-supply handle, \<open>:OUTP ON\<close>, the main run,
  \<open>max_current\<close>, the check for no readings and the statistics of the main run.
\<close>

definition run_beep_sequence ::
  "instrument option \<Rightarrow> instrument option \<Rightarrow> rat \<Rightarrow> rat \<Rightarrow> rat
     \<Rightarrow> ((error + report) \<times> instrument option \<times> instrument option) option" where
  "run_beep_sequence psu dmm v_main v_double v_triple =
     (case psu of
        None \<Rightarrow> Some (Inr PsuNotConnected, psu, dmm)
      | Some dev \<Rightarrow>
          (case send psu OUTP_ON of
             (Inl e, psu1) \<Rightarrow> Some (Inl e, psu1, dmm)
           | (Inr text, psu1) \<Rightarrow>
               (case run_test psu1 dmm v_main ''Main Test'' 0.1 100 of
                  (Inl e, psu2, dmm2) \<Rightarrow> Some (Inl e, psu2, dmm2)
                | (Inr result_main, psu2, dmm2) \<Rightarrow>
                    (let r = acq_readings result_main in
                     case (if r \<noteq> [] then py_max r else Inr 0) of
                       Inl e \<Rightarrow> Some (Inl e, psu2, dmm2)
                     | Inr max_current \<Rightarrow>
                         if r = [] then Some (Inr NoReadings, psu2, dmm2)
                         else
                           (case main_stats r of
                              Inl e \<Rightarrow> Some (Inl e, psu2, dmm2)
                            | Inr stats \<Rightarrow>
                                beep_checks psu2 dmm2 v_double v_triple result_main stats)))))"

text \<open>
  \<open>reply_at dev cs k\<close> is what the device answers to the \<open>k\<close>-th command of \<open>cs\<close>
  once the commands before it have been sent.
\<close>

definition reply_at :: "instrument \<Rightarrow> command list \<Rightarrow> nat \<Rightarrow> reply" where
  "reply_at dev cs k = respond dev (sent dev @ take k cs) (cs ! k)"

text \<open>
  Devices for concrete runs: a power supply that accepts everything, one that times out on
  every command, and a multimeter whose first fetch times out and whose later fetches
  return two readings.
\<close>

definition steady_psu :: instrument where
  "steady_psu = \<lparr>respond = (\<lambda>history c. Ok []), sent = []\<rparr>"

definition dead_psu :: instrument where
  "dead_psu = \<lparr>respond = (\<lambda>history c. Raise VisaIOError), sent = []\<rparr>"

definition flaky_dmm :: instrument where
  "flaky_dmm =
     \<lparr>respond = (\<lambda>history c.
          if c = FETC then (if FETC \<in> set history then Ok ''+1.0E-02,+2.0E-02'' else Raise VisaIOError)
          else Ok []),
      sent = []\<rparr>"

section \<open>Properties of the scan\<close>

lemma np_getitem_in_range:
  "0 \<le> i \<Longrightarrow> i < int (length abv) \<Longrightarrow> np_getitem abv i = Inr (abv ! nat i)"
  by (simp add: np_getitem_def)

lemma scan_loop_exit:
  "\<not> i < int (length abv) \<Longrightarrow> scan_loop abv min_gap (i, acc) = Some (Inr acc)"
  by (subst scan_loop.simps) simp

lemma scan_loop_hit:
  "0 \<le> i \<Longrightarrow> i < int (length abv) \<Longrightarrow> abv ! nat i \<Longrightarrow>
   scan_loop abv min_gap (i, acc) = scan_loop abv min_gap (i + min_gap, acc @ [i])"
  by (subst scan_loop.simps) (simp add: scan_step_def np_getitem_in_range)

lemma scan_loop_miss:
  "0 \<le> i \<Longrightarrow> i < int (length abv) \<Longrightarrow> \<not> abv ! nat i \<Longrightarrow>
   scan_loop abv min_gap (i, acc) = scan_loop abv min_gap (i + 1, acc)"
  by (subst scan_loop.simps) (simp add: scan_step_def np_getitem_in_range)

lemma scan_loop_total:
  assumes "1 \<le> min_gap"
  shows "0 \<le> i \<Longrightarrow>
    \<exists>new. scan_loop abv min_gap (i, acc) = Some (Inr (acc @ new))
      \<and> successively (\<lambda>a b. a + min_gap \<le> b) new
      \<and> (\<forall>k\<in>set new. i \<le> k \<and> k < int (length abv) \<and> abv ! nat k)"
proof (induction "nat (int (length abv) - i)" arbitrary: i acc rule: less_induct)
  case less
  show ?case
  proof (cases "i < int (length abv)")
    case False
    then have "scan_loop abv min_gap (i, acc) = Some (Inr (acc @ []))"
      by (simp add: scan_loop_exit)
    then show ?thesis by force
  next
    case inside: True
    show ?thesis
    proof (cases "abv ! nat i")
      case True
      have smaller: "nat (int (length abv) - (i + min_gap)) < nat (int (length abv) - i)"
        using assms inside by linarith
      have "0 \<le> i + min_gap" using assms less.prems by linarith
      from less.hyps [OF smaller this, of "acc @ [i]"]
      obtain new where new:
        "scan_loop abv min_gap (i + min_gap, acc @ [i]) = Some (Inr ((acc @ [i]) @ new))"
        "successively (\<lambda>a b. a + min_gap \<le> b) new"
        "\<forall>k\<in>set new. i + min_gap \<le> k \<and> k < int (length abv) \<and> abv ! nat k"
        by blast
      have "scan_loop abv min_gap (i, acc) = Some (Inr (acc @ (i # new)))"
        using new(1) scan_loop_hit [OF less.prems inside True] by simp
      moreover have "successively (\<lambda>a b. a + min_gap \<le> b) (i # new)"
        using new(2,3) by (cases new) (simp_all add: successively_Cons)
      moreover have "\<forall>k\<in>set (i # new). i \<le> k \<and> k < int (length abv) \<and> abv ! nat k"
        using new(3) assms inside True by auto
      ultimately show ?thesis by blast
    next
      case False
      have smaller: "nat (int (length abv) - (i + 1)) < nat (int (length abv) - i)"
        using inside by linarith
      have "0 \<le> i + 1" using less.prems by linarith
      from less.hyps [OF smaller this, of acc]
      obtain new where new:
        "scan_loop abv min_gap (i + 1, acc) = Some (Inr (acc @ new))"
        "successively (\<lambda>a b. a + min_gap \<le> b) new"
        "\<forall>k\<in>set new. i + 1 \<le> k \<and> k < int (length abv) \<and> abv ! nat k"
        by blast
      have "scan_loop abv min_gap (i, acc) = Some (Inr (acc @ new))"
        using new(1) scan_loop_miss [OF less.prems inside False] by simp
      moreover have "\<forall>k\<in>set new. i \<le> k \<and> k < int (length abv) \<and> abv ! nat k"
        using new(3) by auto
      ultimately show ?thesis using new(2) by blast
    qed
  qed
qed

lemma successively_nth:
  "successively P xs \<Longrightarrow> Suc k < length xs \<Longrightarrow> P (xs ! k) (xs ! Suc k)"
proof (induction P xs arbitrary: k rule: successively.induct)
  case (3 P x y xs)
  then show ?case by (cases k) auto
qed simp_all

lemma scan_loop_stuck:
  assumes ret: "scan_loop abv 0 st = Some r"
    and pos: "0 \<le> fst st"
    and hit: "fst st \<le> j" "j < int (length abv)" "abv ! nat j"
  shows False
proof -
  let ?stuck = "\<lambda>a m s. m = (0::int) \<and> 0 \<le> fst s
      \<and> (\<exists>j. fst s \<le> j \<and> j < int (length a) \<and> a ! nat j)"
  have "\<not> ?stuck abv 0 st"
  proof (rule scan_loop.raw_induct [where P = "\<lambda>a m s y. \<not> ?stuck a m s", OF _ ret])
    fix loop :: "bool list \<Rightarrow> int \<Rightarrow> int \<times> int list \<Rightarrow> (error + int list) option"
    fix a m s y
    assume ih: "\<And>a m s y. loop a m s = Some y \<Longrightarrow> \<not> ?stuck a m s"
    assume body: "(if fst s < int (length a) then
        (case scan_step a m s of Inl e \<Rightarrow> Some (Inl e) | Inr st' \<Rightarrow> loop a m st')
        else Some (Inr (snd s))) = Some y"
    show "\<not> ?stuck a m s"
    proof
      assume stuck: "?stuck a m s"
      then obtain k where k: "fst s \<le> k" "k < int (length a)" "a ! nat k" by blast
      have m: "m = 0" and nonneg: "0 \<le> fst s" using stuck by simp_all
      have inside: "fst s < int (length a)" using k by linarith
      show False
      proof (cases "a ! nat (fst s)")
        case True
        then have "loop a m (fst s + m, snd s @ [fst s]) = Some y"
          using body inside nonneg by (simp add: scan_step_def np_getitem_in_range)
        from ih [OF this] show False using m nonneg inside True by auto
      next
        case False
        then have "loop a m (fst s + 1, snd s) = Some y"
          using body inside nonneg by (simp add: scan_step_def np_getitem_in_range)
        moreover have "fst s \<noteq> k" using False k(3) by auto
        ultimately show False using ih [of a m "(fst s + 1, snd s)" y] m nonneg k by force
      qed
    qed
  qed
  then show False using pos hit by auto
qed

lemma scan_loop_skip_misses:
  "0 \<le> i \<Longrightarrow> i \<le> j \<Longrightarrow> j \<le> int (length abv) \<Longrightarrow>
   (\<forall>k. i \<le> k \<and> k < j \<longrightarrow> \<not> abv ! nat k) \<Longrightarrow>
   scan_loop abv min_gap (i, acc) = scan_loop abv min_gap (j, acc)"
proof (induction "nat (j - i)" arbitrary: i)
  case 0
  then show ?case by simp
next
  case (Suc n)
  then have "scan_loop abv min_gap (i, acc) = scan_loop abv min_gap (i + 1, acc)"
    by (intro scan_loop_miss) auto
  also have "\<dots> = scan_loop abv min_gap (j, acc)"
    using Suc.prems Suc.hyps(2) by (intro Suc.hyps(1)) auto
  finally show ?case .
qed

lemma example_above:
  "np_greater (example_readings @ rest) 0.005 =
     [False, False, True, True, False, False, False, False, False, False, True, False]
       @ np_greater rest 0.005"
  by (simp add: np_greater_def example_readings_def)

lemma example_quiet:
  assumes "4 \<le> k" "k < 10"
  shows "\<not> ([False, False, True, True, False, False, False, False, False, False, True, False] @ rest) ! nat k"
proof -
  have "k = 4 \<or> k = 5 \<or> k = 6 \<or> k = 7 \<or> k = 8 \<or> k = 9" using assms by arith
  then show ?thesis by (auto simp: nth_append)
qed

section \<open>Properties of the parser\<close>





























lemma split_comma_nonempty: "split_comma s \<noteq> []"
  by (induction s) (simp_all split: list.splits)

lemma split_comma_append:
  "CHR '','' \<notin> set t \<Longrightarrow>
   split_comma (t @ rest) = (t @ hd (split_comma rest)) # tl (split_comma rest)"
proof (induction t)
  case Nil
  then show ?case using split_comma_nonempty [of rest] by simp
next
  case (Cons c t)
  then show ?case by auto
qed

lemma split_comma_single: "CHR '','' \<notin> set t \<Longrightarrow> split_comma t = [t]"
  using split_comma_append [of t "[]"] by simp







lemma split_loop_map_filter:
  "split_loop toks acc = Inr (acc @ List.map_filter
      (\<lambda>tok. case py_float (filter numeric_char tok) of Inr x \<Rightarrow> Some x | Inl e \<Rightarrow> None) toks)"
proof (induction toks arbitrary: acc)
  case Nil
  then show ?case by (simp add: Let_def)
next
  case (Cons tok toks)
  have empty: "py_float [] = Inl ValueError"
    by (simp add: py_float_def parse_unsigned_def parse_number_def)
  have only: "py_float s = Inl e \<Longrightarrow> e = ValueError" for s e
    by (auto simp: py_float_def split: option.splits)
  show ?case
  proof (cases "py_float (filter numeric_char tok)")
    case (Inl e)
    then have "e = ValueError" by (rule only)
    then show ?thesis using Inl Cons [of acc] by (simp add: Let_def)
  next
    case (Inr x)
    then have "filter numeric_char tok \<noteq> []" using empty by auto
    then show ?thesis using Inr Cons [of "acc @ [x]"] by (simp add: Let_def)
  qed
qed

lemma parse_payload_drops:
  "parse_payload p = Inr (List.map_filter
      (\<lambda>tok. case py_float (filter numeric_char tok) of Inr x \<Rightarrow> Some x | Inl e \<Rightarrow> None)
      (split_comma (strip p)))"
proof (cases "CHR '','' \<in> set (strip p)")
  case True
  then show ?thesis
    using split_loop_map_filter [of "split_comma (strip p)" "[]"] by (simp add: parse_payload_def)
next
  case False
  have empty: "py_float [] = Inl ValueError"
    by (simp add: py_float_def parse_unsigned_def parse_number_def)
  have only: "py_float s = Inl e \<Longrightarrow> e = ValueError" for s e
    by (auto simp: py_float_def split: option.splits)
  show ?thesis
  proof (cases "py_float (filter numeric_char (strip p))")
    case (Inl e)
    then have "e = ValueError" by (rule only)
    then show ?thesis
      using Inl False by (simp add: parse_payload_def split_comma_single Let_def)
  next
    case (Inr x)
    then have "filter numeric_char (strip p) \<noteq> []" using empty by auto
    then show ?thesis
      using Inr False by (simp add: parse_payload_def split_comma_single Let_def)
  qed
qed

section \<open>Properties of the instrument operations\<close>

lemma send_connected:
  "send (Some dev) c =
     (case respond dev (sent dev) c of Raise e \<Rightarrow> Inl e | Ok text \<Rightarrow> Inr text,
      Some (dev\<lparr>sent := sent dev @ [c]\<rparr>))"
  by (simp add: send_def)

lemma reply_at_step:
  "reply_at (dev\<lparr>sent := sent dev @ [c]\<rparr>) cs k = reply_at dev (c # cs) (Suc k)"
  by (simp add: reply_at_def)

lemma write_all_accepts:
  "(\<forall>k<length cs. \<exists>t. reply_at dev cs k = Ok t) \<Longrightarrow>
   write_all (Some dev) cs = (None, Some (dev\<lparr>sent := sent dev @ cs\<rparr>))"
proof (induction cs arbitrary: dev)
  case Nil
  then show ?case by simp
next
  case (Cons c cs)
  from Cons.prems have "\<exists>t. reply_at dev (c # cs) 0 = Ok t" by blast
  then obtain resp where first: "respond dev (sent dev) c = Ok resp"
    by (auto simp: reply_at_def)
  have "\<forall>k<length cs. \<exists>t. reply_at (dev\<lparr>sent := sent dev @ [c]\<rparr>) cs k = Ok t"
    using Cons.prems by (auto simp: reply_at_step)
  from Cons.IH [OF this] show ?case
    using first by (simp add: send_connected)
qed

lemma write_all_rejects:
  "k < length cs \<Longrightarrow> reply_at dev cs k = Raise e \<Longrightarrow>
   \<exists>e' h. write_all (Some dev) cs = (Some e', h)"
proof (induction cs arbitrary: dev k)
  case Nil
  then show ?case by simp
next
  case (Cons c cs)
  show ?case
  proof (cases "respond dev (sent dev) c")
    case (Raise e')
    then show ?thesis by (simp add: send_connected)
  next
    case (Ok resp)
    then have "k \<noteq> 0" using Cons.prems(2) by (cases k) (auto simp: reply_at_def)
    then obtain j where j: "k = Suc j" by (cases k) auto
    then have "j < length cs" "reply_at (dev\<lparr>sent := sent dev @ [c]\<rparr>) cs j = Raise e"
      using Cons.prems by (simp_all add: reply_at_step)
    from Cons.IH [OF this] show ?thesis
      using Ok by (simp add: send_connected)
  qed
qed

lemma parse_payload_total: "\<exists>rs. parse_payload p = Inr rs"
  by (simp add: parse_payload_drops)

lemma measure_current_none: "fst (measure_current None nplc n) = Inl AttributeError"
  by (simp add: measure_current_def dmm_setup_def send_def)

lemma measure_current_asleep:
  "n < 0 \<Longrightarrow> \<exists>e. fst (measure_current dmm nplc n) = Inl e"
proof -
  assume "n < 0"
  then have "sleep (of_int n * 0.01) = Some ValueError"
    by (simp add: sleep_def mult_neg_pos)
  then show ?thesis
    by (auto simp: measure_current_def split: prod.splits option.splits sum.splits)
qed

lemma measure_current_failure:
  assumes "k < 8" "reply_at dev (dmm_setup nplc n @ [FETC]) k = Raise e"
  shows "\<exists>e'. fst (measure_current (Some dev) nplc n) = Inl e'"
proof (cases "\<forall>j<7. \<exists>t. reply_at dev (dmm_setup nplc n) j = Ok t")
  case True
  have len: "length (dmm_setup nplc n) = 7" by (simp add: dmm_setup_def)
  have k: "k = 7"
  proof (rule ccontr)
    assume "k \<noteq> 7"
    then have "k < 7" using assms(1) by simp
    then have "reply_at dev (dmm_setup nplc n) k = Raise e"
      using assms(2) len by (simp add: reply_at_def nth_append)
    then show False using True \<open>k < 7\<close> by auto
  qed
  have w: "write_all (Some dev) (dmm_setup nplc n)
      = (None, Some (dev\<lparr>sent := sent dev @ dmm_setup nplc n\<rparr>))"
    using True len by (intro write_all_accepts) simp
  have "respond dev (sent dev @ dmm_setup nplc n) FETC = Raise e"
    using assms(2) k len by (simp add: reply_at_def nth_append)
  then show ?thesis
    using w by (simp add: measure_current_def send_connected split: option.splits)
next
  case False
  then obtain j e' where j: "j < 7" "reply_at dev (dmm_setup nplc n) j = Raise e'"
    by (metis reply.exhaust)
  have len: "length (dmm_setup nplc n) = 7" by (simp add: dmm_setup_def)
  from write_all_rejects [of j "dmm_setup nplc n" dev e'] j len
  obtain e'' h where "write_all (Some dev) (dmm_setup nplc n) = (Some e'', h)" by auto
  then show ?thesis by (simp add: measure_current_def)
qed

lemma measure_current_success:
  assumes "0 \<le> n"
    and "\<forall>k<7. \<exists>t. reply_at dev (dmm_setup nplc n @ [FETC]) k = Ok t"
    and "reply_at dev (dmm_setup nplc n @ [FETC]) 7 = Ok payload"
  shows "measure_current (Some dev) nplc n
    = (parse_payload payload, Some (dev\<lparr>sent := sent dev @ dmm_setup nplc n @ [FETC]\<rparr>))"
proof -
  have len: "length (dmm_setup nplc n) = 7" by (simp add: dmm_setup_def)
  have "\<forall>k<length (dmm_setup nplc n). \<exists>t. reply_at dev (dmm_setup nplc n) k = Ok t"
    using assms(2) len by (simp add: reply_at_def nth_append)
  then have w: "write_all (Some dev) (dmm_setup nplc n)
      = (None, Some (dev\<lparr>sent := sent dev @ dmm_setup nplc n\<rparr>))"
    by (rule write_all_accepts)
  have f: "respond dev (sent dev @ dmm_setup nplc n) FETC = Ok payload"
    using assms(3) len by (simp add: reply_at_def nth_append)
  have s: "sleep (of_int n * 0.01) = None"
    using assms(1) by (simp add: sleep_def)
  show ?thesis
    using w f s by (simp add: measure_current_def send_connected)
qed

lemma all_below_7: "(\<forall>k<7. P k) = (P 0 \<and> P 1 \<and> P 2 \<and> P 3 \<and> P 4 \<and> P 5 \<and> P (6::nat))"
proof -
  have "k < 7 \<longleftrightarrow> k = 0 \<or> k = 1 \<or> k = 2 \<or> k = 3 \<or> k = 4 \<or> k = 5 \<or> k = 6" for k :: nat
    by arith
  then show ?thesis by auto
qed

section \<open>The claims\<close>

text \<open>
  Claim C1, as amended.  Once the three power-supply commands of a call have been
  accepted, \<open>run_test\<close> returns a result with the label and voltage of the call, whatever
  the multimeter does.  The readings are empty when the multimeter handle is \<open>None\<close>,
  when the wait raises, or when any of the eight multimeter steps (timeout, six
  configuration commands, fetch) raises.  When all eight steps succeed the readings are
  the parsed payload.  This holds in every state of the two instruments, so also in the
  state a failed run leaves behind: in the concrete run below the second acquisition,
  started after a failed one, returns its two readings.  When one of the three
  power-supply commands raises, \<open>run_test\<close> raises the same exception and sends nothing
  to the multimeter.
\<close>

theorem run_test_catches_dmm_failures:
  "(write_all psu [INST_CH1, VOLT voltage, OUTP_ON] = (None, psu1) \<longrightarrow>
     (\<exists>rs dmm1.
        run_test psu dmm voltage label nplc n
          = (Inr \<lparr>acq_label = label, acq_voltage = voltage, acq_readings = rs\<rparr>, psu1, dmm1)
        \<and> (dmm = None \<or> n < 0
             \<or> (\<exists>dev k e. dmm = Some dev \<and> k < 8
                   \<and> reply_at dev (dmm_setup nplc n @ [FETC]) k = Raise e)
            \<longrightarrow> rs = [])
        \<and> (\<forall>dev payload. dmm = Some dev \<and> 0 \<le> n
               \<and> (\<forall>k<7. \<exists>t. reply_at dev (dmm_setup nplc n @ [FETC]) k = Ok t)
               \<and> reply_at dev (dmm_setup nplc n @ [FETC]) 7 = Ok payload
            \<longrightarrow> parse_payload payload = Inr rs
                \<and> dmm1 = Some (dev\<lparr>sent := sent dev @ dmm_setup nplc n @ [FETC]\<rparr>))))
   \<and> (write_all psu [INST_CH1, VOLT voltage, OUTP_ON] = (Some err, psu1) \<longrightarrow>
        run_test psu dmm voltage label nplc n = (Inl err, psu1, dmm))"
proof (intro conjI impI)
  assume "write_all psu [INST_CH1, VOLT voltage, OUTP_ON] = (Some err, psu1)"
  then show "run_test psu dmm voltage label nplc n = (Inl err, psu1, dmm)"
    by (simp add: run_test_def)
next
  assume psu_ok: "write_all psu [INST_CH1, VOLT voltage, OUTP_ON] = (None, psu1)"
  obtain outcome dmm1 where Pair: "measure_current dmm nplc n = (outcome, dmm1)"
    by (cases "measure_current dmm nplc n")
  show "\<exists>rs dmm1.
        run_test psu dmm voltage label nplc n
          = (Inr \<lparr>acq_label = label, acq_voltage = voltage, acq_readings = rs\<rparr>, psu1, dmm1)
        \<and> (dmm = None \<or> n < 0
             \<or> (\<exists>dev k e. dmm = Some dev \<and> k < 8
                   \<and> reply_at dev (dmm_setup nplc n @ [FETC]) k = Raise e)
            \<longrightarrow> rs = [])
        \<and> (\<forall>dev payload. dmm = Some dev \<and> 0 \<le> n
               \<and> (\<forall>k<7. \<exists>t. reply_at dev (dmm_setup nplc n @ [FETC]) k = Ok t)
               \<and> reply_at dev (dmm_setup nplc n @ [FETC]) 7 = Ok payload
            \<longrightarrow> parse_payload payload = Inr rs
                \<and> dmm1 = Some (dev\<lparr>sent := sent dev @ dmm_setup nplc n @ [FETC]\<rparr>))"
  proof (cases outcome)
    case (Inl e)
    have run: "run_test psu dmm voltage label nplc n
        = (Inr \<lparr>acq_label = label, acq_voltage = voltage, acq_readings = []\<rparr>, psu1, dmm1)"
      using psu_ok Pair Inl by (simp add: run_test_def)
    have "False" if "dmm = Some dev" "0 \<le> n"
        "\<forall>k<7. \<exists>t. reply_at dev (dmm_setup nplc n @ [FETC]) k = Ok t"
        "reply_at dev (dmm_setup nplc n @ [FETC]) 7 = Ok payload" for dev payload
      using measure_current_success [OF that(2,3,4)] that(1) Pair Inl
        parse_payload_total [of payload] by auto
    then show ?thesis using run by blast
  next
    case (Inr rs)
    have run: "run_test psu dmm voltage label nplc n
        = (Inr \<lparr>acq_label = label, acq_voltage = voltage, acq_readings = rs\<rparr>, psu1, dmm1)"
      using psu_ok Pair Inr by (simp add: run_test_def)
    have ok: "fst (measure_current dmm nplc n) = Inr rs" using Pair Inr by simp
    have no_fail: "\<not> (dmm = None \<or> n < 0
           \<or> (\<exists>dev k e. dmm = Some dev \<and> k < 8
                 \<and> reply_at dev (dmm_setup nplc n @ [FETC]) k = Raise e))"
      using ok measure_current_none [of nplc n] measure_current_asleep [of n dmm nplc]
        measure_current_failure [of _ _ nplc n]
      by (metis Inl_Inr_False)
    have "parse_payload payload = Inr rs
        \<and> dmm1 = Some (dev\<lparr>sent := sent dev @ dmm_setup nplc n @ [FETC]\<rparr>)"
      if "dmm = Some dev" "0 \<le> n"
        "\<forall>k<7. \<exists>t. reply_at dev (dmm_setup nplc n @ [FETC]) k = Ok t"
        "reply_at dev (dmm_setup nplc n @ [FETC]) 7 = Ok payload" for dev payload
      using measure_current_success [OF that(2,3,4)] that(1) Pair Inr by simp
    then show ?thesis using run no_fail by blast
  qed
qed

theorem run_test_catches_dmm_failures_witness:
  "write_all (Some steady_psu) [INST_CH1, VOLT 5, OUTP_ON]
     = (None, Some (steady_psu\<lparr>sent := [INST_CH1, VOLT 5, OUTP_ON]\<rparr>))
   \<and> reply_at flaky_dmm (dmm_setup 0.1 100 @ [FETC]) 7 = Raise VisaIOError
   \<and> write_all (Some dead_psu) [INST_CH1, VOLT 5, OUTP_ON]
     = (Some VisaIOError, Some (dead_psu\<lparr>sent := [INST_CH1]\<rparr>))
   \<and> run_test (Some dead_psu) (Some flaky_dmm) 5 ''Main Test'' 0.1 100
     = (Inl VisaIOError, Some (dead_psu\<lparr>sent := [INST_CH1]\<rparr>), Some flaky_dmm)
   \<and> (\<exists>psu1 dmm1.
         run_test (Some steady_psu) (Some flaky_dmm) 5 ''Main Test'' 0.1 100
           = (Inr \<lparr>acq_label = ''Main Test'', acq_voltage = 5, acq_readings = []\<rparr>, psu1, dmm1)
         \<and> fst (run_test psu1 dmm1 5.2 ''Double Beep'' 0.1 100)
           = Inr \<lparr>acq_label = ''Double Beep'', acq_voltage = 5.2, acq_readings = [0.01, 0.02]\<rparr>)"
proof -
  let ?cmds = "dmm_setup 0.1 100 @ [FETC]"
  let ?psu1 = "steady_psu\<lparr>sent := [INST_CH1, VOLT 5, OUTP_ON]\<rparr>"
  let ?dmm1 = "flaky_dmm\<lparr>sent := ?cmds\<rparr>"
  have psu: "write_all (Some steady_psu) [INST_CH1, VOLT 5, OUTP_ON] = (None, Some ?psu1)"
    by (simp add: send_def steady_psu_def)
  have fail: "reply_at flaky_dmm ?cmds 7 = Raise VisaIOError"
    by (simp add: reply_at_def dmm_setup_def flaky_dmm_def)
  from psu run_test_catches_dmm_failures
    [where psu = "Some steady_psu" and voltage = 5 and ?psu1.0 = "Some ?psu1"
       and dmm = "Some flaky_dmm" and label = "''Main Test''" and nplc = "0.1" and n = 100]
  obtain rs1 dmm1' where run1:
    "run_test (Some steady_psu) (Some flaky_dmm) 5 ''Main Test'' 0.1 100
       = (Inr \<lparr>acq_label = ''Main Test'', acq_voltage = 5, acq_readings = rs1\<rparr>,
          Some ?psu1, dmm1')"
    and caught: "(\<exists>dev k e. Some flaky_dmm = Some dev \<and> k < 8
                 \<and> reply_at dev ?cmds k = Raise e) \<longrightarrow> rs1 = []"
    by blast
  have "\<exists>dev k e. Some flaky_dmm = Some dev \<and> k < 8 \<and> reply_at dev ?cmds k = Raise e"
    using fail by (intro exI [of _ flaky_dmm] exI [of _ 7] exI [of _ VisaIOError]) simp
  with caught have "rs1 = []" by blast
  with run1 have first':
    "run_test (Some steady_psu) (Some flaky_dmm) 5 ''Main Test'' 0.1 100
       = (Inr \<lparr>acq_label = ''Main Test'', acq_voltage = 5, acq_readings = []\<rparr>,
          Some ?psu1, dmm1')"
    by simp
  have "snd (snd (run_test (Some steady_psu) (Some flaky_dmm) 5 ''Main Test'' 0.1 100))
      = Some ?dmm1"
    by (simp add: run_test_def measure_current_def dmm_setup_def send_def steady_psu_def
        flaky_dmm_def sleep_def)
  then have first:
    "run_test (Some steady_psu) (Some flaky_dmm) 5 ''Main Test'' 0.1 100
       = (Inr \<lparr>acq_label = ''Main Test'', acq_voltage = 5, acq_readings = []\<rparr>,
          Some ?psu1, Some ?dmm1)"
    using first' by simp
  have psu_again: "write_all (Some ?psu1) [INST_CH1, VOLT 5.2, OUTP_ON]
      = (None, Some (?psu1\<lparr>sent := sent ?psu1 @ [INST_CH1, VOLT 5.2, OUTP_ON]\<rparr>))"
    by (simp add: send_def steady_psu_def)
  have acks: "\<forall>k<7. \<exists>t. reply_at ?dmm1 ?cmds k = Ok t"
    by (simp add: all_below_7 reply_at_def dmm_setup_def flaky_dmm_def)
  have data: "reply_at ?dmm1 ?cmds 7 = Ok ''+1.0E-02,+2.0E-02''"
    by (simp add: reply_at_def dmm_setup_def flaky_dmm_def)
  have parsed: "parse_payload ''+1.0E-02,+2.0E-02'' = Inr [0.01, 0.02]"
    by code_simp
  from psu_again run_test_catches_dmm_failures
    [where psu = "Some ?psu1" and voltage = "5.2"
       and ?psu1.0 = "Some (?psu1\<lparr>sent := sent ?psu1 @ [INST_CH1, VOLT 5.2, OUTP_ON]\<rparr>)"
       and dmm = "Some ?dmm1" and label = "''Double Beep''" and nplc = "0.1" and n = 100]
  obtain rs where second:
    "fst (run_test (Some ?psu1) (Some ?dmm1) 5.2 ''Double Beep'' 0.1 100)
       = Inr \<lparr>acq_label = ''Double Beep'', acq_voltage = 5.2, acq_readings = rs\<rparr>"
    and proceeds: "\<And>dev payload. Some ?dmm1 = Some dev \<and> (0::int) \<le> 100
             \<and> (\<forall>k<7. \<exists>t. reply_at dev ?cmds k = Ok t)
             \<and> reply_at dev ?cmds 7 = Ok payload
          \<Longrightarrow> parse_payload payload = Inr rs"
    by force
  have "parse_payload ''+1.0E-02,+2.0E-02'' = Inr rs"
    using acks data by (intro proceeds [of ?dmm1]) simp
  then have rs: "rs = [0.01, 0.02]" using parsed by simp
  have dead: "write_all (Some dead_psu) [INST_CH1, VOLT 5, OUTP_ON]
      = (Some VisaIOError, Some (dead_psu\<lparr>sent := [INST_CH1]\<rparr>))"
    by (simp add: send_def dead_psu_def)
  from dead run_test_catches_dmm_failures
    [where psu = "Some dead_psu" and voltage = 5 and err = VisaIOError
       and ?psu1.0 = "Some (dead_psu\<lparr>sent := [INST_CH1]\<rparr>)"
       and dmm = "Some flaky_dmm" and label = "''Main Test''" and nplc = "0.1" and n = 100]
  have escaped: "run_test (Some dead_psu) (Some flaky_dmm) 5 ''Main Test'' 0.1 100
      = (Inl VisaIOError, Some (dead_psu\<lparr>sent := [INST_CH1]\<rparr>), Some flaky_dmm)"
    by blast
  show ?thesis using psu fail dead escaped first second rs by simp
qed

text \<open>
  Claim C1 as stated fails for a failure while programming the power source: the three
  \<open>psu.write\<close> calls are outside the \<open>try\<close> block, and the exception leaves
  \<open>run_test\<close>.
\<close>

theorem psu_failure_escapes_run_test:
  "respond dead_psu (sent dead_psu) INST_CH1 = Raise VisaIOError
   \<and> fst (run_test (Some dead_psu) (Some flaky_dmm) 5 ''Main Test'' 0.1 100) = Inl VisaIOError"
  by (simp add: run_test_def dead_psu_def send_def)

text \<open>
  Claim C2, as amended.  A label other than \<open>"Double Beep"\<close> and \<open>"Triple Beep"\<close>
  raises nothing: with a positive \<open>min_gap\<close> the scan completes, neither \<open>if\<close>
  matches, and the function falls off its end, which returns \<open>None\<close>.
\<close>

theorem unsupported_label_returns_none:
  assumes "label \<noteq> ''Double Beep''" "label \<noteq> ''Triple Beep''" "1 \<le> min_gap"
  shows "detect_beep readings label threshold min_gap = Some (Inr PyNone)"
proof -
  from scan_loop_total [OF assms(3), of 0 "np_greater readings threshold" "[]"]
  obtain idxs where "find_spikes readings threshold min_gap = Some (Inr idxs)"
    by (auto simp: find_spikes_def)
  then show ?thesis using assms(1,2) by (simp add: detect_beep_def)
qed

theorem unsupported_label_returns_none_witness:
  "''double'' \<noteq> ''Double Beep'' \<and> ''double'' \<noteq> ''Triple Beep'' \<and> (1::int) \<le> 10
   \<and> detect_beep [0.01, 0, 0.01] ''double'' 0.005 10 = Some (Inr PyNone)"
  using unsupported_label_returns_none [of "''double''" 10 "[0.01, 0, 0.01]" "0.005"] by simp

text \<open>
  Claim C2 as stated fails: with the label \<open>"Standard"\<close> (the default label of
  \<open>run_test\<close>) and the default threshold and gap, \<open>detect_beep\<close> returns \<open>None\<close>
  and reports no unsupported-label error.
\<close>

theorem unsupported_label_counterexample:
  "detect_beep [] ''Standard'' default_threshold default_min_gap = Some (Inr PyNone)"
  by (simp add: detect_beep_def find_spikes_def np_greater_def scan_loop.simps)



text \<open>
  Claim C4.  The readings of the example, followed by any further readings, scanned with
  threshold 0.005 and a gap of at least 2 (the claim's gap is 10): the first recorded
  index is 2, index 3 is never recorded, so the activations at 2 and 3 are one spike;
  index 10 is recorded exactly when \<open>10 - 2\<close> is at least \<open>min_gap\<close>, and then it is
  the second spike.
\<close>

theorem debounce_example:
  assumes gap: "2 \<le> min_gap"
  shows "\<exists>idxs. find_spikes (example_readings @ rest) 0.005 min_gap = Some (Inr idxs)
    \<and> idxs \<noteq> [] \<and> idxs ! 0 = 2 \<and> 3 \<notin> set idxs
    \<and> (10 \<in> set idxs \<longleftrightarrow> min_gap \<le> 10 - 2)
    \<and> (10 \<in> set idxs \<longrightarrow> idxs ! 1 = 10)"
proof -
  let ?abv = "[False, False, True, True, False, False, False, False, False, False, True, False]
       @ np_greater rest 0.005"
  have len: "12 \<le> int (length ?abv)" by simp
  have "scan_loop ?abv min_gap (0, []) = scan_loop ?abv min_gap (1, [])"
    using scan_loop_miss [of 0 ?abv min_gap "[]"] by simp
  also have "\<dots> = scan_loop ?abv min_gap (2, [])"
    using scan_loop_miss [of 1 ?abv min_gap "[]"] by simp
  also have "\<dots> = scan_loop ?abv min_gap (2 + min_gap, [2])"
    using scan_loop_hit [of 2 ?abv min_gap "[]"] by simp
  finally have "scan_loop ?abv min_gap (0, []) = scan_loop ?abv min_gap (2 + min_gap, [2])" .
  then have start: "find_spikes (example_readings @ rest) 0.005 min_gap
      = scan_loop ?abv min_gap (2 + min_gap, [2])"
    unfolding find_spikes_def example_above .
  have one: "1 \<le> min_gap" using gap by simp
  show ?thesis
  proof (cases "min_gap \<le> 8")
    case True
    have quiet: "\<forall>k. 2 + min_gap \<le> k \<and> k < 10 \<longrightarrow> \<not> ?abv ! nat k"
    proof (intro allI impI)
      fix k assume "2 + min_gap \<le> k \<and> k < 10"
      then have "4 \<le> k" "k < 10" using gap by simp_all
      then show "\<not> ?abv ! nat k" by (rule example_quiet)
    qed
    have "scan_loop ?abv min_gap (2 + min_gap, [2]) = scan_loop ?abv min_gap (10, [2])"
      using gap True len quiet by (intro scan_loop_skip_misses) simp_all
    also have "\<dots> = scan_loop ?abv min_gap (10 + min_gap, [2, 10])"
      using scan_loop_hit [of 10 ?abv min_gap "[2]"] by simp
    finally have mid: "find_spikes (example_readings @ rest) 0.005 min_gap
        = scan_loop ?abv min_gap (10 + min_gap, [2, 10])"
      using start by simp
    have "0 \<le> 10 + min_gap" using gap by simp
    from scan_loop_total [OF one this, of ?abv "[2, 10]"]
    obtain new where new:
      "scan_loop ?abv min_gap (10 + min_gap, [2, 10]) = Some (Inr ([2, 10] @ new))"
      "\<forall>k\<in>set new. 10 + min_gap \<le> k"
      by blast
    have "3 \<notin> set new" "10 \<notin> set new" using new(2) gap by auto
    then show ?thesis
      using mid new(1) True by simp
  next
    case False
    have "0 \<le> 2 + min_gap" using gap by simp
    from scan_loop_total [OF one this, of ?abv "[2]"]
    obtain new where new:
      "scan_loop ?abv min_gap (2 + min_gap, [2]) = Some (Inr ([2] @ new))"
      "\<forall>k\<in>set new. 2 + min_gap \<le> k"
      by blast
    have "3 \<notin> set new" "10 \<notin> set new" using new(2) False by auto
    then show ?thesis
      using start new(1) False by simp
  qed
qed

theorem debounce_example_witness:
  "(2::int) \<le> 10 \<and> find_spikes (example_readings @ [0, 0, 0]) 0.005 10 = Some (Inr [2])
   \<and> (\<exists>idxs. find_spikes (example_readings @ [0, 0, 0]) 0.005 10 = Some (Inr idxs)
    \<and> idxs \<noteq> [] \<and> idxs ! 0 = 2 \<and> 3 \<notin> set idxs
    \<and> (10 \<in> set idxs \<longleftrightarrow> (10::int) \<le> 10 - 2)
    \<and> (10 \<in> set idxs \<longrightarrow> idxs ! 1 = 10))"
proof -
  have h: "(2::int) \<le> 10" by simp
  have "find_spikes (example_readings @ [0, 0, 0]) 0.005 10 = Some (Inr [2])"
    by (simp add: example_readings_def find_spikes_def np_greater_def scan_loop.simps
        scan_step_def np_getitem_def)
  then show ?thesis using h debounce_example [OF h, of "[0, 0, 0]"] by simp
qed

text \<open>
  Claim C5, as amended.  For every readings sequence and threshold and every positive
  \<open>min_gap\<close> the scan returns its list of spike indices, the label \<open>"Double Beep"\<close>
  is answered with \<open>2 \<le> num_spikes\<close> and the label \<open>"Triple Beep"\<close> with
  \<open>3 \<le> num_spikes\<close>.
\<close>

theorem classification_by_count:
  assumes "1 \<le> min_gap"
  shows "\<exists>idxs. find_spikes readings threshold min_gap = Some (Inr idxs)
    \<and> detect_beep readings ''Double Beep'' threshold min_gap
          = Some (Inr (PyBool (2 \<le> length idxs)))
    \<and> detect_beep readings ''Triple Beep'' threshold min_gap
          = Some (Inr (PyBool (3 \<le> length idxs)))"
proof -
  from scan_loop_total [OF assms, of 0 "np_greater readings threshold" "[]"]
  obtain idxs where "find_spikes readings threshold min_gap = Some (Inr idxs)"
    by (auto simp: find_spikes_def)
  then show ?thesis by (simp add: detect_beep_def)
qed

theorem classification_by_count_witness:
  "(1::int) \<le> 2
   \<and> find_spikes [0.01, 0, 0.01] 0.005 2 = Some (Inr [0, 2])
   \<and> detect_beep [0.01, 0, 0.01] ''Double Beep'' 0.005 2 = Some (Inr (PyBool True))
   \<and> detect_beep [0.01, 0, 0.01] ''Triple Beep'' 0.005 2 = Some (Inr (PyBool False))"
proof -
  have h: "(1::int) \<le> 2" by simp
  have "find_spikes [0.01, 0, 0.01] 0.005 2 = Some (Inr [0, 2])"
    by (simp add: find_spikes_def np_greater_def scan_loop.simps scan_step_def np_getitem_def)
  then show ?thesis
    using classification_by_count [OF h, of "[0.01, 0, 0.01]" "0.005"] by auto
qed

text \<open>
  Claim C5 as stated, for every \<open>min_gap\<close>, fails when \<open>min_gap\<close> is not positive.
  With \<open>min_gap = -2\<close> on the readings \<open>[0.01, 0, 0.01]\<close> the cursor goes from 0 to
  \<open>-2\<close>, \<open>-1\<close>, \<open>-3\<close> and \<open>-5\<close>, where \<open>above[i]\<close> raises \<open>IndexError\<close>:
  neither label gets an answer.  With \<open>min_gap = 0\<close> on \<open>[0.01, 0.01]\<close> the scan
  never leaves index 0 and \<open>detect_beep\<close> does not return.
\<close>

theorem no_classification_without_positive_gap:
  "detect_beep [0.01, 0, 0.01] ''Double Beep'' 0.005 (- 2) = Some (Inl IndexError)
   \<and> detect_beep [0.01, 0, 0.01] ''Triple Beep'' 0.005 (- 2) = Some (Inl IndexError)
   \<and> detect_beep [0.01, 0.01] ''Double Beep'' 0.005 0 = None"
proof -
  have neg: "find_spikes [0.01, 0, 0.01] 0.005 (- 2) = Some (Inl IndexError)"
    by (simp add: find_spikes_def np_greater_def scan_loop.simps scan_step_def np_getitem_def)
  have zero: "find_spikes [0.01, 0.01] 0.005 0 = None"
  proof (cases "find_spikes [0.01, 0.01] 0.005 0")
    case (Some r)
    then have "scan_loop (np_greater [0.01, 0.01] 0.005) 0 (0, []) = Some r"
      by (simp add: find_spikes_def)
    from scan_loop_stuck [OF this, of 0] show ?thesis by (simp add: np_greater_def)
  qed simp
  show ?thesis using neg zero by (simp add: detect_beep_def)
qed

text \<open>
  Claim C6, as amended.  For a positive \<open>min_gap\<close> the detection pass returns, and in
  the recorded indices every index is smaller than the next and at least \<open>min_gap\<close>
  below it.
\<close>

theorem spike_indices_spaced:
  assumes "1 \<le> min_gap"
  shows "\<exists>idxs. find_spikes readings threshold min_gap = Some (Inr idxs)
    \<and> (\<forall>k. Suc k < length idxs \<longrightarrow>
          idxs ! k < idxs ! Suc k \<and> idxs ! k + min_gap \<le> idxs ! Suc k)"
proof -
  from scan_loop_total [OF assms, of 0 "np_greater readings threshold" "[]"]
  obtain idxs where idxs:
    "scan_loop (np_greater readings threshold) min_gap (0, []) = Some (Inr idxs)"
    "successively (\<lambda>a b. a + min_gap \<le> b) idxs"
    by auto
  have "idxs ! k < idxs ! Suc k \<and> idxs ! k + min_gap \<le> idxs ! Suc k"
    if "Suc k < length idxs" for k
    using successively_nth [OF idxs(2) that] assms by linarith
  then show ?thesis using idxs(1) by (simp add: find_spikes_def)
qed

theorem spike_indices_spaced_witness:
  "(1::int) \<le> 2 \<and> (\<exists>idxs. find_spikes [1, 1, 0, 1, 1] 0.005 2 = Some (Inr idxs)
    \<and> (\<forall>k. Suc k < length idxs \<longrightarrow>
          idxs ! k < idxs ! Suc k \<and> idxs ! k + 2 \<le> idxs ! Suc k))
   \<and> find_spikes [1, 1, 0, 1, 1] 0.005 2 = Some (Inr [0, 3])"
proof -
  have h: "(1::int) \<le> 2" by simp
  have "find_spikes [1, 1, 0, 1, 1] 0.005 2 = Some (Inr [0, 3])"
    by (simp add: find_spikes_def np_greater_def scan_loop.simps scan_step_def np_getitem_def)
  with h spike_indices_spaced [OF h, of "[1, 1, 0, 1, 1]" "0.005"] show ?thesis by simp
qed

text \<open>
  Claim C6 as stated, for every \<open>min_gap\<close>, fails at \<open>min_gap = 0\<close>: on the single
  reading 0.01 the loop guard holds, the body records index 0 and leaves the cursor at 0,
  the guard holds again and the body records index 0 a second time.  The recorded
  indices \<open>[0, 0]\<close> are not strictly increasing.
\<close>

theorem zero_gap_records_duplicates:
  "fst (0::int, []::int list) < int (length (np_greater [0.01] 0.005))
   \<and> scan_step (np_greater [0.01] 0.005) 0 (0, []) = Inr (0, [0])
   \<and> fst (0::int, [0::int]) < int (length (np_greater [0.01] 0.005))
   \<and> scan_step (np_greater [0.01] 0.005) 0 (0, [0]) = Inr (0, [0, 0])
   \<and> \<not> [0, 0::int] ! 0 < [0, 0] ! Suc 0"
  by (simp add: np_greater_def scan_step_def np_getitem_def)

text \<open>
  Claim C7.  With the power-supply handle \<open>None\<close> the sequencer reports that the power
  supply is not connected and returns; the multimeter is returned as it was passed, so no
  command was sent to it, and there is no power supply to send one to.
\<close>

theorem refuses_without_psu:
  "run_beep_sequence None dmm v_main v_double v_triple = Some (Inr PsuNotConnected, None, dmm)"
  by (simp add: run_beep_sequence_def)

text \<open>
  Claim C8.  When the main run returns no readings, the sequencer reports that there are
  no readings and returns without an error, with the instruments as the main run left
  them: the power supply has received \<open>:OUTP ON\<close> and the three commands of the main
  run and nothing else.  The mean over the empty list, which would raise
  \<open>ZeroDivisionError\<close>, is not computed.
\<close>

theorem no_readings_aborts:
  assumes "send (Some psu) OUTP_ON = (Inr ack, psu1)"
    and "run_test psu1 dmm v_main ''Main Test'' 0.1 100 = (Inr result_main, psu2, dmm2)"
    and "acq_readings result_main = []"
  shows "run_beep_sequence (Some psu) dmm v_main v_double v_triple
           = Some (Inr NoReadings, psu2, dmm2)
    \<and> py_mean (acq_readings result_main) = Inl ZeroDivisionError
    \<and> map_option sent psu2 = Some (sent psu @ [OUTP_ON, INST_CH1, VOLT v_main, OUTP_ON])"
proof -
  have psu1: "psu1 = Some (psu\<lparr>sent := sent psu @ [OUTP_ON]\<rparr>)"
    using assms(1) by (auto simp: send_connected)
  have "write_all psu1 [INST_CH1, VOLT v_main, OUTP_ON] = (None, psu2)"
    using assms(2) by (auto simp: run_test_def split: prod.splits option.splits sum.splits)
  then have "map_option sent psu2 = Some (sent psu @ [OUTP_ON, INST_CH1, VOLT v_main, OUTP_ON])"
    unfolding psu1 by (auto simp: send_connected split: reply.splits)
  then show ?thesis
    using assms by (simp add: run_beep_sequence_def py_mean_def)
qed

theorem no_readings_aborts_witness:
  "send (Some steady_psu) OUTP_ON = (Inr [], Some (steady_psu\<lparr>sent := [OUTP_ON]\<rparr>))
   \<and> fst (run_test (Some (steady_psu\<lparr>sent := [OUTP_ON]\<rparr>)) (Some flaky_dmm) 5 ''Main Test'' 0.1 100)
       = Inr \<lparr>acq_label = ''Main Test'', acq_voltage = 5, acq_readings = []\<rparr>
   \<and> map_option (\<lambda>(r, p, d). (r, map_option sent p))
        (run_beep_sequence (Some steady_psu) (Some flaky_dmm) 5 5.2 5.4)
       = Some (Inr NoReadings, Some [OUTP_ON, INST_CH1, VOLT 5, OUTP_ON])"
proof -
  have s: "send (Some steady_psu) OUTP_ON = (Inr [], Some (steady_psu\<lparr>sent := [OUTP_ON]\<rparr>))"
    by (simp add: send_def steady_psu_def)
  obtain r p d where run:
    "run_test (Some (steady_psu\<lparr>sent := [OUTP_ON]\<rparr>)) (Some flaky_dmm) 5 ''Main Test'' 0.1 100
       = (Inr r, p, d)"
    and r: "r = \<lparr>acq_label = ''Main Test'', acq_voltage = 5, acq_readings = []\<rparr>"
    by (simp add: run_test_def measure_current_def dmm_setup_def send_def steady_psu_def
        flaky_dmm_def sleep_def)
  have e: "acq_readings r = []" using r by simp
  show ?thesis
    using s run r no_readings_aborts [OF s run e, of "5.2" "5.4"] by (auto simp: steady_psu_def)
qed



text \<open>
  Claim C10.  With \<open>min_gap\<close> at least 1 the scan returns for every readings sequence
  and threshold.  With \<open>min_gap = 0\<close> and some reading above the threshold it never
  returns: the cursor reaches the first such reading and stays there.
\<close>

theorem scan_terminates_iff_gap_positive:
  "(1 \<le> min_gap \<longrightarrow> (\<exists>idxs. find_spikes readings threshold min_gap = Some (Inr idxs)))
   \<and> ((\<exists>r\<in>set readings. threshold < r) \<longrightarrow> find_spikes readings threshold 0 = None)"
proof (intro conjI impI)
  assume "1 \<le> min_gap"
  from scan_loop_total [OF this, of 0 "np_greater readings threshold" "[]"]
  show "\<exists>idxs. find_spikes readings threshold min_gap = Some (Inr idxs)"
    by (auto simp: find_spikes_def)
next
  assume "\<exists>r\<in>set readings. threshold < r"
  then obtain n where n: "n < length readings" "threshold < readings ! n"
    by (auto simp: in_set_conv_nth)
  let ?abv = "np_greater readings threshold"
  have hit: "int n < int (length ?abv)" "?abv ! nat (int n)"
    using n by (simp_all add: np_greater_def)
  show "find_spikes readings threshold 0 = None"
  proof (cases "scan_loop ?abv 0 (0, [])")
    case None
    then show ?thesis by (simp add: find_spikes_def)
  next
    case (Some r)
    from scan_loop_stuck [OF Some _ _ hit] show ?thesis by simp
  qed
qed

theorem scan_terminates_iff_gap_positive_witness:
  "(1::int) \<le> 10 \<and> (\<exists>idxs. find_spikes [0, 0.01, 0] 0.005 10 = Some (Inr idxs))
   \<and> (\<exists>r\<in>set [0, 0.01, 0::rat]. 0.005 < r) \<and> find_spikes [0, 0.01, 0] 0.005 0 = None"
  using scan_terminates_iff_gap_positive [of 10 "[0, 0.01, 0]" "0.005"]
    scan_terminates_iff_gap_positive [of 0 "[0, 0.01, 0]" "0.005"]
  by simp

end
